theory Spec2Isabelle
  imports Complex_Main
begin

chapter \<open>The example fixture of the command runner\<close>

text \<open>
  A shallow embedding of \<^verbatim>\<open>src/command_runner/test_files/example.py\<close>: the entry point
  \<^verbatim>\<open>main\<close>, the function \<^verbatim>\<open>add\<close>, the pytest-style test functions, the methods of
  \<^verbatim>\<open>TestMath\<close> and the unittest methods of \<^verbatim>\<open>TestAddition\<close>.

  Every function of the file is embedded in one and the same shape: it takes the state of
  the program (the text written to standard output so far, and the state of the objects)
  and, if it returns at all, gives its outcome (a raised exception on the left, the
  returned value on the right) together with the new state.
\<close>

section \<open>Python values\<close>

text \<open>
  Exceptions. The operations used in the file raise four of them: \<^verbatim>\<open>assert\<close> and
  \<^verbatim>\<open>assertEqual\<close> raise \<^verbatim>\<open>AssertionError\<close>, converting an integer that does not fit a
  float raises \<^verbatim>\<open>OverflowError\<close>, \<^verbatim>\<open>/\<close> raises \<^verbatim>\<open>ZeroDivisionError\<close> on a zero divisor,
  and \<^verbatim>\<open>+\<close> raises \<^verbatim>\<open>TypeError\<close> on operands that cannot be added. The code of an object
  can raise any other, kept by its name.
\<close>

datatype exn =
  AssertionError | OverflowError | ZeroDivisionError | TypeError | OtherError string

text \<open>
  A Python \<^verbatim>\<open>float\<close> is an IEEE 754 binary64 value: a finite number (kept as the rational
  it denotes; \<open>Finite 0\<close> is \<^verbatim>\<open>0.0\<close>), the negative zero \<^verbatim>\<open>-0.0\<close>, an infinity, or a NaN
  with its sign bit and its 52-bit fraction field (not zero; \<^verbatim>\<open>float('nan')\<close> is
  \<open>NaN False (2 ^ 51)\<close>).
\<close>

datatype pyfloat = Finite rat | NegZero | PosInf | NegInf | NaN bool nat

text \<open>
  The state of a program: the text written to standard output, and the state of its
  objects, one integer attribute for each object identity.
\<close>

record world =
  stdout :: string
  heap :: "nat \<Rightarrow> int"

text \<open>
  What a method of an object sees of the other operand: a built-in value as it is,
  another object by its identity.
\<close>

datatype arg = ArgNone | ArgBool bool | ArgInt int | ArgFloat pyfloat | ArgObject nat

text \<open>
  The values that can be passed to \<^verbatim>\<open>add\<close>: \<^verbatim>\<open>None\<close>, the built-in numbers \<^verbatim>\<open>bool\<close> (a
  subclass of \<^verbatim>\<open>int\<close>), \<^verbatim>\<open>int\<close> (unbounded) and \<^verbatim>\<open>float\<close>, and the instances of classes
  that the program defines. Such an object has an identity, a class, and the two methods
  that \<^verbatim>\<open>+\<close> calls, \<^verbatim>\<open>__add__\<close> and \<^verbatim>\<open>__radd__\<close>. A method is any code: called with the
  other operand in a state, it may change the state, and it returns a value, returns
  \<^verbatim>\<open>NotImplemented\<close>, raises, or does not return (\<open>None\<close>). A class that does not define a
  method has the one that returns \<^verbatim>\<open>NotImplemented\<close>. Classes are not subclasses of each
  other or of a built-in type.
\<close>

datatype pyval =
    PyNone
  | PyBool bool
  | PyInt int
  | PyFloat pyfloat
  | PyObject (obj_id: nat) (obj_class: nat)
      (obj_add: "arg \<Rightarrow> world \<Rightarrow> (reply \<times> world) option")
      (obj_radd: "arg \<Rightarrow> world \<Rightarrow> (reply \<times> world) option")
and reply = NotImplemented | Returned pyval | Raised exn

type_synonym pymethod = "arg \<Rightarrow> world \<Rightarrow> (reply \<times> world) option"

fun view :: "pyval \<Rightarrow> arg" where
  "view PyNone = ArgNone"
| "view (PyBool b) = ArgBool b"
| "view (PyInt n) = ArgInt n"
| "view (PyFloat x) = ArgFloat x"
| "view (PyObject i c m r) = ArgObject i"


subsection \<open>Rounding to binary64\<close>

text \<open>\<^verbatim>\<open>int.bit_length\<close>: the number of binary digits of a natural number.\<close>

fun bit_length :: "nat \<Rightarrow> nat" where
  "bit_length n = (if n = 0 then 0 else Suc (bit_length (n div 2)))"

declare bit_length.simps [simp del]

definition pow2 :: "int \<Rightarrow> rat" where
  "pow2 k = (if 0 \<le> k then 2 ^ nat k else 1 / 2 ^ nat (- k))"

text \<open>
  The binary exponent of a positive rational \<open>a\<close>: the \<open>e\<close> with
  \<open>pow2 e \<le> a\<close> and \<open>a < pow2 (e + 1)\<close>.
\<close>

definition ilog2 :: "rat \<Rightarrow> int" where
  "ilog2 a = (if 1 \<le> a then int (bit_length (nat \<lfloor>a\<rfloor>)) - 1
              else - int (bit_length (nat (\<lceil>1 / a\<rceil> - 1))))"

text \<open>Rounding to the nearest integer, a tie going to the even neighbour.\<close>

definition round_half_even :: "rat \<Rightarrow> int" where
  "round_half_even x =
     (let f = \<lfloor>x\<rfloor>; d = x - of_int f
      in if d < 1 / 2 then f else if 1 / 2 < d then f + 1
         else if even f then f else f + 1)"

text \<open>
  The binary64 value of an exact result \<open>x\<close>: 53 significant bits, the smallest exponent
  -1022 (below it the spacing stays \<open>pow2 (- 1074)\<close>, the subnormal numbers), round to
  nearest with ties to even, an infinity from \<open>pow2 1024\<close> on, and a zero that keeps the
  sign of \<open>x\<close> when a nonzero \<open>x\<close> rounds to zero.
\<close>

definition round_double :: "rat \<Rightarrow> pyfloat" where
  "round_double x =
     (if x = 0 then Finite 0
      else
        (let a = \<bar>x\<bar>;
             q = max (ilog2 a) (- 1022) - 52;
             v = of_int (round_half_even (a / pow2 q)) * pow2 q
         in if pow2 1024 \<le> v then (if x < 0 then NegInf else PosInf)
            else if v = 0 then (if x < 0 then NegZero else Finite 0)
            else Finite (if x < 0 then - v else v)))"

subsection \<open>Float operations\<close>

text \<open>
  Converting an \<^verbatim>\<open>int\<close> to a \<^verbatim>\<open>float\<close>, as every mixed operation does with its integer
  operand: correctly rounded, and \<^verbatim>\<open>OverflowError\<close> (int too large to convert to float)
  when the rounded value is beyond the largest float.
\<close>

definition float_of_int :: "int \<Rightarrow> exn + pyfloat" where
  "float_of_int n =
     (case round_double (of_int n) of
        PosInf \<Rightarrow> Inl OverflowError
      | NegInf \<Rightarrow> Inl OverflowError
      | f \<Rightarrow> Inr f)"

text \<open>The rational denoted by a finite float (both zeros denote 0).\<close>

fun float_value :: "pyfloat \<Rightarrow> rat" where
  "float_value (Finite x) = x"
| "float_value _ = 0"

text \<open>
  A NaN that goes through an operation comes out quiet: the top bit of its fraction
  field is set.
\<close>

definition quiet :: "nat \<Rightarrow> nat" where
  "quiet f = (if odd (f div 2 ^ 51) then f else f + 2 ^ 51)"

text \<open>
  IEEE 754 addition in the default rounding mode. Which NaN a NaN result is, Python
  leaves to the hardware; this is x86-64: the first operand that is a NaN, made quiet,
  and for infinities of opposite sign the negative quiet NaN with no payload. A sum that
  is exactly zero is \<^verbatim>\<open>0.0\<close> unless both operands are \<^verbatim>\<open>-0.0\<close>, and every other sum is the
  exact sum rounded.
\<close>

fun float_add :: "pyfloat \<Rightarrow> pyfloat \<Rightarrow> pyfloat" where
  "float_add (NaN s f) y = NaN s (quiet f)"
| "float_add x (NaN s f) = NaN s (quiet f)"
| "float_add PosInf NegInf = NaN True (2 ^ 51)"
| "float_add NegInf PosInf = NaN True (2 ^ 51)"
| "float_add PosInf y = PosInf"
| "float_add x PosInf = PosInf"
| "float_add NegInf y = NegInf"
| "float_add x NegInf = NegInf"
| "float_add NegZero NegZero = NegZero"
| "float_add x y = round_double (float_value x + float_value y)"

text \<open>
  \<^verbatim>\<open>==\<close> on two floats: a NaN is equal to nothing (not even to itself), the two zeros
  are equal, and otherwise equal floats are the same float.
\<close>

fun float_eq :: "pyfloat \<Rightarrow> pyfloat \<Rightarrow> bool" where
  "float_eq (NaN s f) y = False"
| "float_eq x (NaN s f) = False"
| "float_eq PosInf y = (y = PosInf)"
| "float_eq NegInf y = (y = NegInf)"
| "float_eq x PosInf = False"
| "float_eq x NegInf = False"
| "float_eq x y = (float_value x = float_value y)"

text \<open>\<^verbatim>\<open>==\<close> on a float and an int compares the two numbers exactly.\<close>

fun float_eq_int :: "pyfloat \<Rightarrow> int \<Rightarrow> bool" where
  "float_eq_int (NaN s f) n = False"
| "float_eq_int PosInf n = False"
| "float_eq_int NegInf n = False"
| "float_eq_int x n = (float_value x = of_int n)"

text \<open>
  True division \<^verbatim>\<open>a / b\<close> of two ints: \<^verbatim>\<open>ZeroDivisionError\<close> for a zero divisor, a zero
  with the sign of the quotient for a zero dividend, otherwise the correctly rounded
  quotient, and \<^verbatim>\<open>OverflowError\<close> when that is too large for a float.
\<close>

definition int_truediv :: "int \<Rightarrow> int \<Rightarrow> exn + pyfloat" where
  "int_truediv a b =
     (if b = 0 then Inl ZeroDivisionError
      else if a = 0 then Inr (if b < 0 then NegZero else Finite 0)
      else (case round_double (of_int a / of_int b) of
              PosInf \<Rightarrow> Inl OverflowError
            | NegInf \<Rightarrow> Inl OverflowError
            | f \<Rightarrow> Inr f))"

subsection \<open>The operators \<^verbatim>\<open>+\<close> and \<^verbatim>\<open>==\<close> on numbers\<close>

text \<open>
  A number is an integer (\<^verbatim>\<open>True\<close> is 1 and \<^verbatim>\<open>False\<close> is 0) or a float; \<^verbatim>\<open>None\<close> and the
  objects are not numbers.
\<close>

fun numeric :: "pyval \<Rightarrow> (int + pyfloat) option" where
  "numeric (PyBool b) = Some (Inl (if b then 1 else 0))"
| "numeric (PyInt n) = Some (Inl n)"
| "numeric (PyFloat x) = Some (Inr x)"
| "numeric v = None"

text \<open>
  \<^verbatim>\<open>+\<close> on two numbers: exact on two integers; with a float operand the other operand is
  converted to a float first, which can raise, and the floats are added.
\<close>

definition num_add :: "int + pyfloat \<Rightarrow> int + pyfloat \<Rightarrow> exn + pyval" where
  "num_add p q =
     (case (p, q) of
        (Inl m, Inl n) \<Rightarrow> Inr (PyInt (m + n))
      | (Inl m, Inr y) \<Rightarrow>
          (case float_of_int m of Inl e \<Rightarrow> Inl e | Inr x \<Rightarrow> Inr (PyFloat (float_add x y)))
      | (Inr x, Inl n) \<Rightarrow>
          (case float_of_int n of Inl e \<Rightarrow> Inl e | Inr y \<Rightarrow> Inr (PyFloat (float_add x y)))
      | (Inr x, Inr y) \<Rightarrow> Inr (PyFloat (float_add x y)))"

definition num_eq :: "int + pyfloat \<Rightarrow> int + pyfloat \<Rightarrow> bool" where
  "num_eq p q =
     (case (p, q) of
        (Inl m, Inl n) \<Rightarrow> m = n
      | (Inl m, Inr y) \<Rightarrow> float_eq_int y m
      | (Inr x, Inl n) \<Rightarrow> float_eq_int x n
      | (Inr x, Inr y) \<Rightarrow> float_eq x y)"

text \<open>
  \<^verbatim>\<open>==\<close> on values: numbers compare as numbers; \<^verbatim>\<open>None\<close> is equal to itself only; an
  object (its class does not define \<^verbatim>\<open>__eq__\<close>) is equal to itself only.
\<close>

fun py_eq :: "pyval \<Rightarrow> pyval \<Rightarrow> bool" where
  "py_eq PyNone b = (b = PyNone)"
| "py_eq (PyObject i c m r) b = (view b = ArgObject i)"
| "py_eq a b =
     (case (numeric a, numeric b) of (Some p, Some q) \<Rightarrow> num_eq p q | _ \<Rightarrow> False)"

subsection \<open>Text\<close>

text \<open>
  \<^verbatim>\<open>str\<close> of an int: its decimal digits, after a minus sign when it is negative. (The
  interpreter's configurable cap on the length of such a text, thousands of digits, is
  left out.)
\<close>

fun nat_str :: "nat \<Rightarrow> string" where
  "nat_str n =
     (if n < 10 then [''0123456789'' ! n]
      else nat_str (n div 10) @ [''0123456789'' ! (n mod 10)])"

declare nat_str.simps [simp del]

definition int_str :: "int \<Rightarrow> string" where
  "int_str i = (if i < 0 then CHR ''-'' # nat_str (nat (- i)) else nat_str (nat i))"

text \<open>
  What a replacement field \<^verbatim>\<open>{result}\<close> of an f-string inserts: \<^verbatim>\<open>format(result, '')\<close>,
  which is \<^verbatim>\<open>str(result)\<close> for the built-in values. The shortest-digits text of a float
  and the text of an object are the interpreter's; they are a parameter here.
\<close>

fun py_format :: "(pyval \<Rightarrow> string) \<Rightarrow> pyval \<Rightarrow> string" where
  "py_format repr PyNone = ''None''"
| "py_format repr (PyBool b) = (if b then ''True'' else ''False'')"
| "py_format repr (PyInt n) = int_str n"
| "py_format repr v = repr v"

section \<open>Programs: state, exceptions and not returning\<close>

text \<open>
  A piece of program, run in a state, returns a value or raises an exception, in a new
  state; or it does not return, which is \<open>None\<close>.
\<close>

type_synonym 'a py = "world \<Rightarrow> ((exn + 'a) \<times> world) option"

definition py_return :: "'a \<Rightarrow> 'a py" where
  "py_return x = (\<lambda>w. Some (Inr x, w))"

definition py_raise :: "exn \<Rightarrow> 'a py" where
  "py_raise e = (\<lambda>w. Some (Inl e, w))"

text \<open>
  Evaluating an expression of built-in values, which changes nothing: its value, or the
  exception it raises.
\<close>

definition py_eval :: "exn + 'a \<Rightarrow> 'a py" where
  "py_eval r = (\<lambda>w. Some (r, w))"

text \<open>
  Sequencing: when the first part raises or does not return, so does the whole, and the
  second part does not run.
\<close>

definition py_bind :: "'a py \<Rightarrow> ('a \<Rightarrow> 'b py) \<Rightarrow> 'b py" where
  "py_bind m f =
     (\<lambda>w. case m w of
             None \<Rightarrow> None
           | Some (Inl e, w') \<Rightarrow> Some (Inl e, w')
           | Some (Inr x, w') \<Rightarrow> f x w')"

text \<open>
  Calling a method of an operand for \<^verbatim>\<open>+\<close>: its value or its exception is the result of
  \<^verbatim>\<open>+\<close>, and \<^verbatim>\<open>NotImplemented\<close> hands over to what comes next.
\<close>

definition call_method :: "pymethod \<Rightarrow> arg \<Rightarrow> pyval py \<Rightarrow> pyval py" where
  "call_method m other otherwise =
     (\<lambda>w. case m other w of
             None \<Rightarrow> None
           | Some (Returned v, w') \<Rightarrow> Some (Inr v, w')
           | Some (Raised e, w') \<Rightarrow> Some (Inl e, w')
           | Some (NotImplemented, w') \<Rightarrow> otherwise w')"

text \<open>
  The second half of \<^verbatim>\<open>a + b\<close>, when \<^verbatim>\<open>a\<close> had nothing to offer: \<^verbatim>\<open>__radd__\<close> of \<^verbatim>\<open>b\<close> if
  \<^verbatim>\<open>b\<close> is an object, and \<^verbatim>\<open>TypeError\<close> otherwise or when that returns
  \<^verbatim>\<open>NotImplemented\<close> too.
\<close>

fun reflected_add :: "pyval \<Rightarrow> pyval \<Rightarrow> pyval py" where
  "reflected_add a (PyObject j d m r) = call_method r (view a) (py_raise TypeError)"
| "reflected_add a b = py_raise TypeError"

text \<open>
  \<^verbatim>\<open>a + b\<close>. Two numbers are added as numbers. An object on the left is asked first, by
  its \<^verbatim>\<open>__add__\<close>; when that returns \<^verbatim>\<open>NotImplemented\<close>, the right operand is asked, unless
  it is an object of the same class. In every other case the right operand is asked.
\<close>

fun py_add :: "pyval \<Rightarrow> pyval \<Rightarrow> pyval py" where
  "py_add (PyObject i c m r) b =
     call_method m (view b)
       (case b of
          PyObject j d m' r' \<Rightarrow>
            if d = c then py_raise TypeError else reflected_add (PyObject i c m r) b
        | _ \<Rightarrow> py_raise TypeError)"
| "py_add a b =
     (case (numeric a, numeric b) of
        (Some p, Some q) \<Rightarrow> py_eval (num_add p q)
      | _ \<Rightarrow> reflected_add a b)"

text \<open>\<^verbatim>\<open>print(s)\<close> writes the text and a newline.\<close>

definition print :: "string \<Rightarrow> unit py" where
  "print s = (\<lambda>w. Some (Inr (), w\<lparr>stdout := stdout w @ s @ [CHR 0x0A]\<rparr>))"

text \<open>\<^verbatim>\<open>assert c\<close> raises \<^verbatim>\<open>AssertionError\<close> when the condition is false.\<close>

definition py_assert :: "bool \<Rightarrow> unit py" where
  "py_assert c = (if c then py_return () else py_raise AssertionError)"

text \<open>
  \<^verbatim>\<open>TestCase.assertEqual(first, second)\<close>: raises the test case's failure exception,
  which is \<^verbatim>\<open>AssertionError\<close>, unless \<^verbatim>\<open>first == second\<close>.
\<close>

definition assertEqual :: "pyval \<Rightarrow> pyval \<Rightarrow> unit py" where
  "assertEqual first second =
     (if py_eq first second then py_return () else py_raise AssertionError)"

text \<open>The built-in \<^verbatim>\<open>sum\<close> on a list of ints: the items added one by one to 0.\<close>

definition py_sum :: "int list \<Rightarrow> int" where
  "py_sum given = foldl (+) 0 given"

section \<open>The functions of the file\<close>

text \<open>
  \<^verbatim>\<open>
  def add(a, b):
      return a + b
  \<close>
\<close>

definition add :: "pyval \<Rightarrow> pyval \<Rightarrow> pyval py" where
  "add a b = py_add a b"

text \<open>
  \<^verbatim>\<open>
  def main():
      print("Hello from Python!")
      result = add(2, 3)
      print(f"2 + 3 = {result}")
  \<close>
\<close>

definition main :: "(pyval \<Rightarrow> string) \<Rightarrow> unit py" where
  "main repr =
     py_bind (print ''Hello from Python!'') (\<lambda>_.
     py_bind (add (PyInt 2) (PyInt 3)) (\<lambda>result.
     print (''2 + 3 = '' @ py_format repr result)))"

text \<open>
  The tests written as functions:
  \<^verbatim>\<open>
  def test_addition():
      assert add(2, 2) == 4

  def test_subtraction():
      assert 5 - 3 == 2

  def test_with_pytest_style():
      given = [1, 2, 3]
      expected = 6
      assert sum(given) == expected
  \<close>
  The operands of \<^verbatim>\<open>-\<close>, \<^verbatim>\<open>*\<close>, \<^verbatim>\<open>/\<close> and \<^verbatim>\<open>sum\<close> in the tests are int literals, so
  these are the operations of \<^verbatim>\<open>int\<close>; the result of \<^verbatim>\<open>add\<close> is compared with \<^verbatim>\<open>==\<close> on
  values.
\<close>

definition test_addition :: "unit py" where
  "test_addition =
     py_bind (add (PyInt 2) (PyInt 2)) (\<lambda>r. py_assert (py_eq r (PyInt 4)))"

definition test_subtraction :: "unit py" where
  "test_subtraction = py_assert ((5 :: int) - 3 = 2)"

definition test_with_pytest_style :: "unit py" where
  "test_with_pytest_style =
     (let given = [1, 2, 3]; expected = 6
      in py_assert (py_sum given = expected))"

text \<open>
  The methods of \<^verbatim>\<open>TestMath\<close>; none of them uses \<^verbatim>\<open>self\<close>.
  \<^verbatim>\<open>
  class TestMath:
      def test_multiplication(self):
          assert 3 * 4 == 12

      def test_division(self):
          assert 10 / 2 == 5

      def test_add_negative(self):
          assert add(-1, 1) == 0
  \<close>
\<close>

definition test_multiplication :: "unit py" where
  "test_multiplication = py_assert ((3 :: int) * 4 = 12)"

definition test_division :: "unit py" where
  "test_division =
     py_bind (py_eval (int_truediv 10 2)) (\<lambda>q. py_assert (py_eq (PyFloat q) (PyInt 5)))"

definition test_add_negative :: "unit py" where
  "test_add_negative =
     py_bind (add (PyInt (- 1)) (PyInt 1)) (\<lambda>r. py_assert (py_eq r (PyInt 0)))"

text \<open>
  The methods of \<^verbatim>\<open>TestAddition\<close>; \<^verbatim>\<open>self\<close> only gives them \<^verbatim>\<open>assertEqual\<close>.
  \<^verbatim>\<open>
  class TestAddition(unittest.TestCase):
      def test_positive_numbers(self):
          self.assertEqual(add(3, 4), 7)

      def test_negative_numbers(self):
          self.assertEqual(add(-3, -4), -7)
  \<close>
\<close>

definition test_positive_numbers :: "unit py" where
  "test_positive_numbers =
     py_bind (add (PyInt 3) (PyInt 4)) (\<lambda>r. assertEqual r (PyInt 7))"

definition test_negative_numbers :: "unit py" where
  "test_negative_numbers =
     py_bind (add (PyInt (- 3)) (PyInt (- 4))) (\<lambda>r. assertEqual r (PyInt (- 7)))"

text \<open>
  The last statement of the module: \<^verbatim>\<open>main()\<close> runs when the file is the script.
  \<^verbatim>\<open>
  if __name__ == "__main__":
      main()
  \<close>
\<close>

definition module_entry :: "(pyval \<Rightarrow> string) \<Rightarrow> string \<Rightarrow> unit py" where
  "module_entry repr name =
     (if name = ''__main__'' then main repr else py_return ())"

subsection \<open>The tests, for any function under test\<close>

text \<open>
  A test does not hold the function it tests: the names \<^verbatim>\<open>add\<close> and \<^verbatim>\<open>sum\<close> in its body are
  looked up when the test runs, and the test calls what they are bound to then. These are
  the bodies of the tests with the function under test as a parameter; in the three
  tests of an operator the parameter stands for the operator. The tests of the file are
  the ones for \<open>add\<close>, \<open>py_sum\<close> and the operators of \<^verbatim>\<open>int\<close>.
\<close>

definition test_addition_with :: "(pyval \<Rightarrow> pyval \<Rightarrow> pyval py) \<Rightarrow> unit py" where
  "test_addition_with f =
     py_bind (f (PyInt 2) (PyInt 2)) (\<lambda>r. py_assert (py_eq r (PyInt 4)))"

definition test_subtraction_with :: "(int \<Rightarrow> int \<Rightarrow> int) \<Rightarrow> unit py" where
  "test_subtraction_with f = py_assert (f 5 3 = 2)"

definition test_with_pytest_style_with :: "(int list \<Rightarrow> int) \<Rightarrow> unit py" where
  "test_with_pytest_style_with f =
     (let given = [1, 2, 3]; expected = 6
      in py_assert (f given = expected))"

definition test_multiplication_with :: "(int \<Rightarrow> int \<Rightarrow> int) \<Rightarrow> unit py" where
  "test_multiplication_with f = py_assert (f 3 4 = 12)"

definition test_division_with :: "(int \<Rightarrow> int \<Rightarrow> exn + pyfloat) \<Rightarrow> unit py" where
  "test_division_with f =
     py_bind (py_eval (f 10 2)) (\<lambda>q. py_assert (py_eq (PyFloat q) (PyInt 5)))"

definition test_add_negative_with :: "(pyval \<Rightarrow> pyval \<Rightarrow> pyval py) \<Rightarrow> unit py" where
  "test_add_negative_with f =
     py_bind (f (PyInt (- 1)) (PyInt 1)) (\<lambda>r. py_assert (py_eq r (PyInt 0)))"

definition test_positive_numbers_with :: "(pyval \<Rightarrow> pyval \<Rightarrow> pyval py) \<Rightarrow> unit py" where
  "test_positive_numbers_with f =
     py_bind (f (PyInt 3) (PyInt 4)) (\<lambda>r. assertEqual r (PyInt 7))"

definition test_negative_numbers_with :: "(pyval \<Rightarrow> pyval \<Rightarrow> pyval py) \<Rightarrow> unit py" where
  "test_negative_numbers_with f =
     py_bind (f (PyInt (- 3)) (PyInt (- 4))) (\<lambda>r. assertEqual r (PyInt (- 7)))"

subsection \<open>Operands that are objects\<close>






definition start :: world where
  "start = \<lparr>stdout = [], heap = (\<lambda>i. 0)\<rparr>"

section \<open>The rounding is binary64 rounding\<close>

subsection \<open>Powers of two and the binary exponent\<close>

lemma pow2_powi: "pow2 k = 2 powi k"
  by (simp add: pow2_def power_int_def inverse_eq_divide power_one_over)

lemma pow2_pos: "0 < pow2 k"
  by (simp add: pow2_powi)

lemma pow2_add: "pow2 (j + k) = pow2 j * pow2 k"
  by (simp add: pow2_powi power_int_add)

lemma pow2_mono: "j \<le> k \<Longrightarrow> pow2 j \<le> pow2 k"
  by (simp add: pow2_powi power_int_increasing)

lemma pow2_nat: "pow2 (int n) = 2 ^ n"
  by (simp add: pow2_def)

lemma pow2_neg_nat: "pow2 (- int n) = 1 / 2 ^ n"
  by (simp add: pow2_powi power_int_minus inverse_eq_divide)

lemma bit_length_upper: "n < 2 ^ bit_length n"
proof (induction n rule: bit_length.induct)
  case (1 n)
  show ?case
  proof (cases "n = 0")
    case True
    then show ?thesis by (simp add: bit_length.simps)
  next
    case False
    with 1 have "n div 2 < 2 ^ bit_length (n div 2)" by simp
    then have "n < 2 * 2 ^ bit_length (n div 2)" by linarith
    with False show ?thesis by (subst bit_length.simps) simp
  qed
qed

lemma bit_length_pos: "0 < n \<Longrightarrow> 0 < bit_length n"
  by (subst bit_length.simps) simp

lemma bit_length_lower: "0 < n \<Longrightarrow> 2 ^ (bit_length n - 1) \<le> n"
proof (induction n rule: bit_length.induct)
  case (1 n)
  then have n: "n \<noteq> 0" by simp
  have bl: "bit_length n - 1 = bit_length (n div 2)"
    using n by (subst bit_length.simps) simp
  show ?case
  proof (cases "n div 2 = 0")
    case True
    then show ?thesis using n bl by (simp add: bit_length.simps)
  next
    case False
    then have pos: "0 < n div 2" by simp
    with 1 n have ih: "2 ^ (bit_length (n div 2) - 1) \<le> n div 2" by simp
    from bit_length_pos [OF pos]
    have "(2::nat) ^ bit_length (n div 2) = 2 * 2 ^ (bit_length (n div 2) - 1)"
      by (cases "bit_length (n div 2)") simp_all
    with ih have "(2::nat) ^ bit_length (n div 2) \<le> 2 * (n div 2)" by simp
    also have "\<dots> \<le> n" by simp
    finally show ?thesis by (simp only: bl)
  qed
qed

lemma ilog2_bounds:
  assumes "0 < a"
  shows "pow2 (ilog2 a) \<le> a" and "a < pow2 (ilog2 a + 1)"
proof -
  show "pow2 (ilog2 a) \<le> a"
  proof (cases "1 \<le> a")
    case True
    define m where "m = nat \<lfloor>a\<rfloor>"
    from True have fl: "1 \<le> \<lfloor>a\<rfloor>" by simp
    then have m: "0 < m" and ma: "of_nat m \<le> a"
      by (simp_all add: m_def)
    have "ilog2 a = int (bit_length m - 1)"
      using True bit_length_pos [OF m] by (simp add: ilog2_def m_def)
    then have "pow2 (ilog2 a) = 2 ^ (bit_length m - 1)" by (simp add: pow2_nat)
    also have "\<dots> = of_nat (2 ^ (bit_length m - 1))" by simp
    also have "\<dots> \<le> of_nat m" using bit_length_lower [OF m] by (simp only: of_nat_le_iff)
    finally show ?thesis using ma by simp
  next
    case False
    define m where "m = nat (\<lceil>1 / a\<rceil> - 1)"
    from False assms have "1 < 1 / a" by simp
    have up: "1 / a \<le> of_int \<lceil>1 / a\<rceil>" by (rule le_of_int_ceiling)
    have "0 \<le> \<lceil>1 / a\<rceil> - 1" using assms by simp
    then have "of_int \<lceil>1 / a\<rceil> = (of_nat m :: rat) + 1" by (simp add: m_def)
    with up have "1 / a \<le> of_nat m + 1" by simp
    also have "(of_nat m :: rat) + 1 = of_nat (Suc m)" by simp
    also have "\<dots> \<le> of_nat (2 ^ bit_length m)"
      using bit_length_upper [of m] by (simp only: of_nat_le_iff Suc_le_eq)
    finally have "1 / a \<le> 2 ^ bit_length m" by simp
    then have "1 / 2 ^ bit_length m \<le> a"
      using assms by (simp add: field_simps)
    moreover have "pow2 (ilog2 a) = 1 / 2 ^ bit_length m"
      using False by (simp add: ilog2_def m_def pow2_def)
    ultimately show ?thesis by simp
  qed
  show "a < pow2 (ilog2 a + 1)"
  proof (cases "1 \<le> a")
    case True
    define m where "m = nat \<lfloor>a\<rfloor>"
    from True have fl: "1 \<le> \<lfloor>a\<rfloor>" by simp
    then have m: "0 < m" by (simp add: m_def)
    have "ilog2 a + 1 = int (bit_length m)"
      using True by (simp add: ilog2_def m_def)
    then have p: "pow2 (ilog2 a + 1) = 2 ^ bit_length m" by (simp add: pow2_nat)
    have "a < of_int (\<lfloor>a\<rfloor> + 1)" by linarith
    also have "\<lfloor>a\<rfloor> + 1 = int (Suc m)" using fl by (simp add: m_def)
    also have "(of_int (int (Suc m)) :: rat) = of_nat (Suc m)" by simp
    also have "\<dots> \<le> of_nat (2 ^ bit_length m)"
      using bit_length_upper [of m] by (simp only: of_nat_le_iff Suc_le_eq)
    finally show ?thesis by (simp add: p)
  next
    case False
    define m where "m = nat (\<lceil>1 / a\<rceil> - 1)"
    from False assms have gt: "1 < 1 / a" by simp
    then have c: "2 \<le> \<lceil>1 / a\<rceil>" by (simp add: less_ceiling_iff)
    then have m: "0 < m" by (simp add: m_def)
    have "of_int (\<lceil>1 / a\<rceil> - 1) < 1 / a" by linarith
    moreover have "0 \<le> \<lceil>1 / a\<rceil> - 1" using c by linarith
    then have "(of_nat m :: rat) = of_int (\<lceil>1 / a\<rceil> - 1)"
      unfolding m_def by (rule of_nat_nat)
    ultimately have lt: "of_nat m < 1 / a" by simp
    have "(2::rat) ^ (bit_length m - 1) = of_nat (2 ^ (bit_length m - 1))" by simp
    also have "\<dots> \<le> of_nat m" using bit_length_lower [OF m] by (simp only: of_nat_le_iff)
    also have "\<dots> < 1 / a" by (rule lt)
    finally have "2 ^ (bit_length m - 1) < 1 / a" .
    then have "a < 1 / 2 ^ (bit_length m - 1)"
      using assms by (simp add: field_simps)
    moreover have "ilog2 a + 1 = - int (bit_length m - 1)"
      using False bit_length_pos [OF m] by (simp add: ilog2_def m_def)
    then have "pow2 (ilog2 a + 1) = 1 / 2 ^ (bit_length m - 1)"
      by (simp only: pow2_neg_nat)
    ultimately show ?thesis by simp
  qed
qed

subsection \<open>Integers too large for a float, and integers that are floats\<close>

lemma pow2_less_cancel: "pow2 j < pow2 k \<Longrightarrow> j < k"
  using pow2_mono [of k j] by (cases "j < k") auto

lemma pow2_le_less_cancel: "pow2 j \<le> a \<Longrightarrow> a < pow2 k \<Longrightarrow> j < k"
  using pow2_less_cancel [of j k] by simp

lemma ilog2_unique:
  assumes "pow2 e \<le> a" "a < pow2 (e + 1)"
  shows "ilog2 a = e"
proof -
  have pos: "0 < a" using assms(1) pow2_pos [of e] by simp
  have "pow2 (ilog2 a) \<le> a" "a < pow2 (ilog2 a + 1)"
    using ilog2_bounds [OF pos] by simp_all
  with assms have "e < ilog2 a + 1" "ilog2 a < e + 1"
    by (meson pow2_le_less_cancel)+
  then show ?thesis by simp
qed

lemma round_half_even_ge_floor: "\<lfloor>x\<rfloor> \<le> round_half_even x"
  by (simp add: round_half_even_def Let_def)

lemma round_half_even_of_int: "round_half_even (of_int k) = k"
  by (simp add: round_half_even_def Let_def)

lemma round_double_overflow:
  assumes big: "pow2 1024 \<le> \<bar>x\<bar>"
  shows "round_double x = (if x < 0 then NegInf else PosInf)"
proof -
  define a where "a = \<bar>x\<bar>"
  define e where "e = ilog2 a"
  define q where "q = e - 52"
  define t where "t = a / pow2 q"
  have pos: "0 < a" using big pow2_pos [of 1024] by (simp add: a_def)
  then have x0: "x \<noteq> 0" by (simp add: a_def)
  have "a < pow2 (e + 1)" unfolding e_def by (rule ilog2_bounds(2) [OF pos])
  with big have "1024 < e + 1" unfolding a_def [symmetric] by (rule pow2_le_less_cancel)
  then have e: "1024 \<le> e" by simp
  then have mx: "max e (- 1022) - 52 = q" by (simp add: q_def)
  have pe: "pow2 e = pow2 q * pow2 52" unfolding q_def by (simp add: pow2_add [symmetric])
  have p52: "pow2 52 = of_int (2 ^ 52)" by (simp add: pow2_def)
  have "pow2 e \<le> a" unfolding e_def by (rule ilog2_bounds(1) [OF pos])
  then have "pow2 52 * pow2 q \<le> a" by (simp add: pe mult.commute)
  then have "pow2 52 \<le> t" unfolding t_def using pow2_pos [of q] by (simp add: le_divide_eq)
  then have "of_int (2 ^ 52) \<le> t" by (simp only: p52)
  then have "2 ^ 52 \<le> \<lfloor>t\<rfloor>" by (simp only: le_floor_iff)
  also have "\<dots> \<le> round_half_even t" by (rule round_half_even_ge_floor)
  finally have "(of_int (2 ^ 52) :: rat) \<le> of_int (round_half_even t)" by (simp only: of_int_le_iff)
  then have "of_int (2 ^ 52) * pow2 q \<le> of_int (round_half_even t) * pow2 q"
    using pow2_pos [of q] by (simp only: mult_le_cancel_right_pos)
  moreover have "of_int (2 ^ 52) * pow2 q = pow2 e"
    unfolding pe p52 [symmetric] by (rule mult.commute)
  moreover have "pow2 1024 \<le> pow2 e" using e by (rule pow2_mono)
  ultimately have "pow2 1024 \<le> of_int (round_half_even t) * pow2 q" by simp
  then show ?thesis
    using x0 unfolding round_double_def Let_def a_def [symmetric] e_def [symmetric] mx t_def [symmetric]
    by simp
qed


lemma round_double_of_int:
  assumes small: "\<bar>n\<bar> \<le> 2 ^ 53"
  shows "round_double (of_int n) = Finite (of_int n)"
proof (cases "n = 0")
  case True
  then show ?thesis by (simp add: round_double_def)
next
  case False
  define a :: rat where "a = of_int \<bar>n\<bar>"
  define e where "e = ilog2 a"
  define q where "q = e - 52"
  have a1: "1 \<le> a" using False by (simp add: a_def flip: of_int_abs)
  then have pos: "0 < a" by simp
  have lo: "pow2 e \<le> a" unfolding e_def by (rule ilog2_bounds(1) [OF pos])
  have hi: "a < pow2 (e + 1)" unfolding e_def by (rule ilog2_bounds(2) [OF pos])
  have a53: "a \<le> pow2 53"
  proof -
    have "(of_int \<bar>n\<bar> :: rat) \<le> of_int (2 ^ 53)" using small by (simp only: of_int_le_iff)
    then show ?thesis by (simp add: a_def pow2_def)
  qed
  have "pow2 0 \<le> a" using a1 by (simp add: pow2_def)
  then have "0 < e + 1" using hi by (rule pow2_le_less_cancel)
  then have e0: "0 \<le> e" by simp
  have "pow2 e < pow2 54"
  proof -
    have "pow2 53 < pow2 54" by (simp add: pow2_def)
    with lo a53 show ?thesis by linarith
  qed
  then have e53: "e \<le> 53" using pow2_less_cancel [of e 54] by simp
  have mx: "max e (- 1022) - 52 = q" using e0 by (simp add: q_def)
  have "\<exists>k. a / pow2 q = of_int k"
  proof (cases "q \<le> 0")
    case True
    have "pow2 q * pow2 (- q) = 1" by (simp add: pow2_add [symmetric] pow2_def)
    then have "a / pow2 q = a * pow2 (- q)" using pow2_pos [of q]
      by (simp add: field_simps)
    also have "pow2 (- q) = of_int (2 ^ nat (- q))" using True by (simp add: pow2_def)
    finally have "a / pow2 q = of_int (\<bar>n\<bar> * 2 ^ nat (- q))" by (simp add: a_def)
    then show ?thesis ..
  next
    case False
    with e53 have e: "e = 53" and q1: "q = 1" by (simp_all add: q_def)
    from lo a53 have "a = pow2 53" by (simp add: e)
    then have "a / pow2 q = of_int (2 ^ 52)" by (simp add: q1 pow2_def)
    then show ?thesis ..
  qed
  then obtain k where k: "a / pow2 q = of_int k" ..
  then have v: "of_int (round_half_even (a / pow2 q)) * pow2 q = a"
    using pow2_pos [of q] by (simp add: round_half_even_of_int field_simps)
  have "pow2 53 < pow2 1024" by (simp add: pow2_def)
  with a53 have nb: "\<not> pow2 1024 \<le> a" by simp
  have ax: "a = \<bar>of_int n\<bar>" by (simp add: a_def)
  have "(if (of_int n :: rat) < 0 then - a else a) = of_int n" by (simp add: ax)
  then show ?thesis
    using False pos nb
    unfolding round_double_def Let_def ax [symmetric] e_def [symmetric] mx v
    by simp
qed

lemma float_of_int_exact: "\<bar>n\<bar> \<le> 2 ^ 53 \<Longrightarrow> float_of_int n = Inr (Finite (of_int n))"
  by (simp add: float_of_int_def round_double_of_int)

lemma int_truediv_exact:
  assumes "b \<noteq> 0" "a \<noteq> 0" "b dvd a" "\<bar>a div b\<bar> \<le> 2 ^ 53"
  shows "int_truediv a b = Inr (Finite (of_int (a div b)))"
proof -
  from \<open>b dvd a\<close> obtain c where c: "a = b * c" ..
  with \<open>b \<noteq> 0\<close> have "(of_int a :: rat) / of_int b = of_int (a div b)" by simp
  then show ?thesis using assms by (simp add: int_truediv_def round_double_of_int)
qed

subsection \<open>Known values\<close>

lemma floor_rat_numeral_div: "\<lfloor>(numeral a :: rat) / numeral b\<rfloor> = numeral a div numeral b"
  using floor_divide_of_int_eq [of "numeral a" "numeral b", where ?'a = rat] by simp

lemma ceiling_rat_numeral_div: "\<lceil>(numeral a :: rat) / numeral b\<rceil> = - (- numeral a div numeral b)"
  using floor_divide_of_int_eq [of "- numeral a" "numeral b", where ?'a = rat]
  by (simp add: ceiling_def)




lemma ilog2_tenth: "ilog2 (1 / 10) = - 4"
  by (simp add: ilog2_def bit_length.simps)

lemma round_double_tenth:
  "round_double (1 / 10) = Finite (3602879701896397 / 36028797018963968)"
  apply (simp add: round_double_def Let_def ilog2_tenth)
  apply (simp add: pow2_def)
  apply (simp add: round_half_even_def Let_def floor_rat_numeral_div)
  done

text \<open>
  The ends of the range: the largest float is itself, half a unit above it the tie goes up
  and overflows, half the smallest subnormal number is a tie that goes to zero and keeps
  its sign, and three quarters of it round up to it.
\<close>

lemma ilog2_max: "ilog2 (2 ^ 1024 - 2 ^ 971) = 1023"
  by (rule ilog2_unique) (simp_all add: pow2_def)

lemma round_double_max: "round_double (2 ^ 1024 - 2 ^ 971) = Finite (2 ^ 1024 - 2 ^ 971)"
  apply (simp only: round_double_def Let_def)
  apply (simp add: ilog2_max [simplified])
  apply (simp add: pow2_def)
  apply (simp add: round_half_even_def Let_def floor_rat_numeral_div)
  done

lemma ilog2_half_ulp: "ilog2 (2 ^ 1024 - 2 ^ 970) = 1023"
  by (rule ilog2_unique) (simp_all add: pow2_def)

lemma round_double_max_half_ulp: "round_double (2 ^ 1024 - 2 ^ 970) = PosInf"
  apply (simp only: round_double_def Let_def)
  apply (simp add: ilog2_half_ulp [simplified])
  apply (simp add: pow2_def)
  apply (simp add: round_half_even_def Let_def floor_rat_numeral_div)
  done

lemma ilog2_min: "ilog2 (1 / 2 ^ 1075) = - 1075"
  by (rule ilog2_unique) (simp_all add: pow2_def)

lemma floor_rat_one_half: "\<lfloor>1 / 2 :: rat\<rfloor> = 0"
  using floor_divide_of_int_eq [of 1 2, where ?'a = rat] by simp

lemma round_double_half_min: "round_double (- 1 / 2 ^ 1075) = NegZero"
  using ilog2_min
  apply (simp only: round_double_def Let_def)
  apply (simp)
  apply (simp add: pow2_def)
  apply (simp add: round_half_even_def Let_def floor_rat_one_half)
  done

lemma ilog2_3min: "ilog2 (3 / 2 ^ 1076) = - 1075"
  by (rule ilog2_unique) (simp_all add: pow2_def)

lemma floor_rat_3_4: "\<lfloor>3 / 4 :: rat\<rfloor> = 0"
  using floor_divide_of_int_eq [of 3 4, where ?'a = rat] by simp

lemma round_double_subnormal: "round_double (3 / 2 ^ 1076) = Finite (1 / 2 ^ 1074)"
  using ilog2_3min
  apply (simp only: round_double_def Let_def)
  apply (simp)
  apply (simp add: pow2_def)
  apply (simp add: round_half_even_def Let_def floor_rat_3_4)
  done

lemma float_of_int_largest:
  "float_of_int (2 ^ 1024 - 2 ^ 971) = Inr (Finite (2 ^ 1024 - 2 ^ 971))"
  using round_double_max by (simp add: float_of_int_def)

lemma float_of_int_first_overflow: "float_of_int (2 ^ 1024 - 2 ^ 970) = Inl OverflowError"
  using round_double_max_half_ulp by (simp add: float_of_int_def)

subsection \<open>How far the float is from the exact number\<close>

lemma round_half_even_error: "\<bar>of_int (round_half_even t) - t\<bar> \<le> 1 / 2"
proof -
  have "of_int \<lfloor>t\<rfloor> \<le> t" "t < of_int \<lfloor>t\<rfloor> + 1" by linarith+
  then show ?thesis
    by (auto simp: round_half_even_def Let_def abs_le_iff)
qed

lemma round_half_even_tie_up:
  assumes "even k" "of_int k - 1 / 2 \<le> t"
  shows "k \<le> round_half_even t"
proof (cases "k \<le> \<lfloor>t\<rfloor>")
  case True
  then show ?thesis using round_half_even_ge_floor [of t] by linarith
next
  case False
  have "of_int (k - 1) \<le> t" using assms(2) by simp
  then have "k - 1 \<le> \<lfloor>t\<rfloor>" by (simp only: le_floor_iff)
  with False have f: "\<lfloor>t\<rfloor> = k - 1" by simp
  then have odd: "odd \<lfloor>t\<rfloor>" using assms(1) by simp
  have "1 / 2 \<le> t - of_int \<lfloor>t\<rfloor>" using assms(2) by (simp add: f)
  then show ?thesis using odd f
    by (auto simp: round_half_even_def Let_def)
qed

lemma pow2_pred: "pow2 (q - 1) = pow2 q / 2"
  using pow2_add [of q "- 1"] by (simp add: pow2_def)

lemma pow2_1024: "pow2 1024 = 2 ^ 1024"
  by (simp add: pow2_def)

lemma pow2_970: "pow2 970 = 2 ^ 970"
  by (simp add: pow2_def)

lemma round_double_cases:
  assumes "x \<noteq> 0"
  defines "q \<equiv> max (ilog2 \<bar>x\<bar>) (- 1022) - 52"
  defines "v \<equiv> of_int (round_half_even (\<bar>x\<bar> / pow2 q)) * pow2 q"
  shows "round_double x =
     (if pow2 1024 \<le> v then (if x < 0 then NegInf else PosInf)
      else if v = 0 then (if x < 0 then NegZero else Finite 0)
      else Finite (if x < 0 then - v else v))"
    and "\<bar>v - \<bar>x\<bar>\<bar> \<le> pow2 (q - 1)"
proof -
  show "round_double x =
     (if pow2 1024 \<le> v then (if x < 0 then NegInf else PosInf)
      else if v = 0 then (if x < 0 then NegZero else Finite 0)
      else Finite (if x < 0 then - v else v))"
    using assms(1) unfolding round_double_def Let_def q_def v_def by simp
  define t where "t = \<bar>x\<bar> / pow2 q"
  have a: "\<bar>x\<bar> = t * pow2 q" using pow2_pos [of q] by (simp add: t_def)
  have "v - \<bar>x\<bar> = (of_int (round_half_even t) - t) * pow2 q"
    unfolding v_def t_def [symmetric] a by (simp add: algebra_simps)
  then have "\<bar>v - \<bar>x\<bar>\<bar> = \<bar>of_int (round_half_even t) - t\<bar> * pow2 q"
    using pow2_pos [of q] by (simp add: abs_mult)
  also have "\<dots> \<le> (1 / 2) * pow2 q"
    using round_half_even_error [of t] pow2_pos [of q]
    by (simp only: mult_le_cancel_right_pos)
  finally show "\<bar>v - \<bar>x\<bar>\<bar> \<le> pow2 (q - 1)" by (simp add: pow2_pred)
qed

lemma round_double_in_range:
  assumes "\<bar>x\<bar> < 2 ^ 1024 - 2 ^ 970"
  shows "\<exists>v. (round_double x = Finite v \<or> round_double x = NegZero \<and> v = 0)
           \<and> \<bar>v - x\<bar> \<le> pow2 (max (ilog2 \<bar>x\<bar>) (- 1022) - 53)"
proof (cases "x = 0")
  case True
  then show ?thesis using pow2_pos [of "max (ilog2 \<bar>x\<bar>) (- 1022) - 53"]
    by (simp add: round_double_def)
next
  case False
  define q where "q = max (ilog2 \<bar>x\<bar>) (- 1022) - 52"
  define v where "v = of_int (round_half_even (\<bar>x\<bar> / pow2 q)) * pow2 q"
  note rd = round_double_cases [OF False, folded q_def v_def]
  have pos: "0 < \<bar>x\<bar>" using False by simp
  have "pow2 (ilog2 \<bar>x\<bar>) \<le> \<bar>x\<bar>" by (rule ilog2_bounds(1) [OF pos])
  also have "\<bar>x\<bar> < pow2 1024" using assms by (simp add: pow2_1024)
  finally have "ilog2 \<bar>x\<bar> < 1024" by (rule pow2_less_cancel)
  then have "q - 1 \<le> 970" by (simp add: q_def)
  then have "pow2 (q - 1) \<le> pow2 970" by (rule pow2_mono)
  with rd(2) have err: "\<bar>v - \<bar>x\<bar>\<bar> \<le> 2 ^ 970" by (simp add: pow2_970)
  then have "v < pow2 1024" using assms unfolding pow2_1024 by linarith
  then have nover: "\<not> pow2 1024 \<le> v" by simp
  have q53: "q - 1 = max (ilog2 \<bar>x\<bar>) (- 1022) - 53" by (simp add: q_def)
  have v0: "0 \<le> v" unfolding v_def using pow2_pos [of q] pos
    by (simp add: round_half_even_def Let_def zero_le_mult_iff)
  show ?thesis
  proof (cases "x < 0")
    case True
    then have "\<bar>- v - x\<bar> = \<bar>v - \<bar>x\<bar>\<bar>" by simp
    with rd(2) have "\<bar>- v - x\<bar> \<le> pow2 (q - 1)" by simp
    then show ?thesis using rd(1) nover True unfolding q53
      by (cases "v = 0") auto
  next
    case False
    then have "\<bar>v - x\<bar> = \<bar>v - \<bar>x\<bar>\<bar>" by simp
    with rd(2) have "\<bar>v - x\<bar> \<le> pow2 (q - 1)" by simp
    then show ?thesis using rd(1) nover False unfolding q53
      by (cases "v = 0") auto
  qed
qed


lemma ilog2_top:
  assumes "2 ^ 1024 - 2 ^ 970 \<le> a" "a < 2 ^ 1024"
  shows "ilog2 a = 1023"
proof (rule ilog2_unique)
  have "(2::rat) ^ 1023 \<le> 2 ^ 1024 - 2 ^ 970" by simp
  with assms(1) show "pow2 1023 \<le> a" by (simp add: pow2_def)
  from assms(2) show "a < pow2 (1023 + 1)" by (simp add: pow2_def)
qed

lemma round_double_too_large:
  assumes big: "2 ^ 1024 - 2 ^ 970 \<le> \<bar>x\<bar>"
  shows "round_double x = (if x < 0 then NegInf else PosInf)"
proof (cases "pow2 1024 \<le> \<bar>x\<bar>")
  case True
  then show ?thesis by (rule round_double_overflow)
next
  case False
  then have lt: "\<bar>x\<bar> < 2 ^ 1024" by (simp add: pow2_1024)
  have x0: "x \<noteq> 0" using big by auto
  have e: "ilog2 \<bar>x\<bar> = 1023" using big lt by (rule ilog2_top)
  define v where "v = of_int (round_half_even (\<bar>x\<bar> / pow2 971)) * pow2 971"
  have p971: "pow2 971 = 2 ^ 971" by (simp add: pow2_def)
  have "(2 ^ 1024 - 2 ^ 970) / 2 ^ 971 \<le> \<bar>x\<bar> / pow2 971"
    using big unfolding p971 by (simp add: divide_right_mono)
  moreover have "((2::rat) ^ 1024 - 2 ^ 970) / 2 ^ 971 = of_int (2 ^ 53) - 1 / 2" by simp
  ultimately have "of_int (2 ^ 53) - 1 / 2 \<le> \<bar>x\<bar> / pow2 971" by simp
  then have "2 ^ 53 \<le> round_half_even (\<bar>x\<bar> / pow2 971)"
    by (rule round_half_even_tie_up [rotated]) simp
  then have "(of_int (2 ^ 53) :: rat) \<le> of_int (round_half_even (\<bar>x\<bar> / pow2 971))"
    by (simp only: of_int_le_iff)
  then have "of_int (2 ^ 53) * pow2 971 \<le> v"
    unfolding v_def using pow2_pos [of 971] by (simp only: mult_le_cancel_right_pos)
  moreover have "of_int (2 ^ 53) * pow2 971 = pow2 1024" by (simp add: pow2_def)
  ultimately have "pow2 1024 \<le> v" by simp
  then show ?thesis
    using round_double_cases(1) [OF x0] unfolding e v_def by simp
qed

lemma float_of_int_fits:
  assumes "\<bar>n\<bar> < 2 ^ 1024 - 2 ^ 970"
  shows "float_of_int n = Inr (round_double (of_int n))"
proof -
  have "(of_int \<bar>n\<bar> :: rat) < of_int (2 ^ 1024 - 2 ^ 970)"
    using assms by (simp only: of_int_less_iff)
  then have "\<bar>of_int n :: rat\<bar> < 2 ^ 1024 - 2 ^ 970" by simp
  from round_double_in_range [OF this] show ?thesis
    by (auto simp: float_of_int_def)
qed

lemma float_of_int_too_large:
  assumes "2 ^ 1024 - 2 ^ 970 \<le> \<bar>n\<bar>"
  shows "float_of_int n = Inl OverflowError"
proof -
  have "(of_int (2 ^ 1024 - 2 ^ 970) :: rat) \<le> of_int \<bar>n\<bar>"
    using assms by (simp only: of_int_le_iff)
  then have "2 ^ 1024 - 2 ^ 970 \<le> \<bar>of_int n :: rat\<bar>" by simp
  from round_double_too_large [OF this] show ?thesis
    by (simp add: float_of_int_def)
qed

lemma float_of_int_raises_iff:
  "float_of_int n = Inl OverflowError \<longleftrightarrow> 2 ^ 1024 - 2 ^ 970 \<le> \<bar>n\<bar>"
  using float_of_int_fits [of n] float_of_int_too_large [of n]
  by (cases "2 ^ 1024 - 2 ^ 970 \<le> \<bar>n\<bar>") auto

lemma round_double_exact:
  assumes k: "\<bar>k\<bar> < 2 ^ 53" and q: "- 1074 \<le> q"
    and fin: "\<bar>of_int k * pow2 q\<bar> < pow2 1024"
  shows "round_double (of_int k * pow2 q) = Finite (of_int k * pow2 q)"
proof (cases "k = 0")
  case True
  then show ?thesis by (simp add: round_double_def)
next
  case False
  define x where "x = of_int k * pow2 q"
  define c :: rat where "c = of_int \<bar>k\<bar>"
  define j where "j = ilog2 c"
  have c1: "1 \<le> c" using False by (simp add: c_def flip: of_int_abs)
  then have cpos: "0 < c" by simp
  have lo: "pow2 j \<le> c" and hi: "c < pow2 (j + 1)"
    unfolding j_def by (rule ilog2_bounds [OF cpos])+
  have "c < pow2 53"
  proof -
    have "(of_int \<bar>k\<bar> :: rat) < of_int (2 ^ 53)" using k by (simp only: of_int_less_iff)
    then show ?thesis by (simp add: c_def pow2_def)
  qed
  with lo have "pow2 j < pow2 53" by linarith
  then have j52: "j \<le> 52" using pow2_less_cancel [of j 53] by simp
  have ax: "\<bar>x\<bar> = c * pow2 q"
    using pow2_pos [of q] by (simp add: x_def c_def abs_mult)
  have x0: "x \<noteq> 0" using False pow2_pos [of q] by (simp add: x_def)
  have "pow2 (j + q) \<le> \<bar>x\<bar>"
    unfolding ax pow2_add using lo pow2_pos [of q] by simp
  moreover have "\<bar>x\<bar> < pow2 (j + q + 1)"
  proof -
    have "c * pow2 q < pow2 (j + 1) * pow2 q" using hi pow2_pos [of q] by simp
    also have "\<dots> = pow2 (j + q + 1)" by (simp add: pow2_add [symmetric] add.commute add.left_commute)
    finally show ?thesis by (simp only: ax)
  qed
  ultimately have e: "ilog2 \<bar>x\<bar> = j + q" by (rule ilog2_unique)
  define q' where "q' = max (j + q) (- 1022) - 52"
  have le: "q' \<le> q" using j52 q by (simp add: q'_def)
  have "pow2 q = pow2 q' * pow2 (q - q')" by (simp add: pow2_add [symmetric])
  also have "pow2 (q - q') = of_int (2 ^ nat (q - q'))" using le by (simp add: pow2_def)
  finally have "\<bar>x\<bar> / pow2 q' = of_int (\<bar>k\<bar> * 2 ^ nat (q - q'))"
    using pow2_pos [of q'] by (simp add: ax c_def)
  then obtain m where t: "\<bar>x\<bar> / pow2 q' = of_int m" ..
  have "of_int (round_half_even (\<bar>x\<bar> / pow2 q')) * pow2 q' = of_int m * pow2 q'"
    by (simp only: t round_half_even_of_int)
  also have "\<dots> = \<bar>x\<bar>"
    using pow2_pos [of q'] by (simp add: t [symmetric])
  finally have veq: "of_int (round_half_even (\<bar>x\<bar> / pow2 q')) * pow2 q' = \<bar>x\<bar>" .
  note rd = round_double_cases(1) [OF x0, unfolded e, folded q'_def, unfolded veq]
  have "(if x < 0 then - \<bar>x\<bar> else \<bar>x\<bar>) = x" by simp
  with fin x0 have "round_double x = Finite x" unfolding rd x_def [symmetric] by simp
  then show ?thesis by (simp only: x_def)
qed

lemma ilog2_3_2: "ilog2 (3 / 2) = 0"
  by (rule ilog2_unique) (simp_all add: pow2_def)

lemma round_double_3_2: "round_double (3 / 2) = Finite (3 / 2)"
  using round_double_exact [of 3 "- 1"] by (simp add: pow2_def)

section \<open>The operators on values\<close>

lemma float_eq_self: "float_eq x x = (\<forall>s f. x \<noteq> NaN s f)"
  by (cases x) simp_all

lemma float_add_commute:
  "float_add x y = float_add y x
   \<or> (\<not> float_eq (float_add x y) (float_add x y)
       \<and> \<not> float_eq (float_add y x) (float_add y x))"
  by (cases x; cases y) (simp_all add: add.commute)

lemma float_add_nan_order:
  "float_add (NaN False (2 ^ 51)) (NaN True (2 ^ 51)) = NaN False (2 ^ 51)"
  "float_add (NaN True (2 ^ 51)) (NaN False (2 ^ 51)) = NaN True (2 ^ 51)"
  "float_add (NaN False 1) (Finite 1) = NaN False (2 ^ 51 + 1)"
  by (simp_all add: quiet_def)

lemma float_add_finite: "float_add (Finite s) (Finite t) = round_double (s + t)"
  by simp

lemma float_add_inf:
  "float_add PosInf (Finite t) = PosInf" "float_add (Finite t) PosInf = PosInf"
  "float_add NegInf (Finite t) = NegInf" "float_add (Finite t) NegInf = NegInf"
  by simp_all

lemma py_eq_float_self: "py_eq (PyFloat x) (PyFloat x) = float_eq x x"
  by (simp add: num_eq_def)

lemma py_eq_ints: "py_eq (PyInt m) (PyInt n) = (m = n)"
  by (simp add: num_eq_def)

lemma py_eq_same: "v = u \<Longrightarrow> py_eq v v \<Longrightarrow> py_eq v u"
  by simp

lemma num_add_ints: "num_add (Inl m) (Inl n) = Inr (PyInt (m + n))"
  by (simp add: num_add_def)

lemma num_add_floats: "num_add (Inr x) (Inr y) = Inr (PyFloat (float_add x y))"
  by (simp add: num_add_def)

lemma num_add_int_float:
  "num_add (Inl m) (Inr y) =
     (if 2 ^ 1024 - 2 ^ 970 \<le> \<bar>m\<bar> then Inl OverflowError
      else num_add (Inr (round_double (of_int m))) (Inr y))"
  using float_of_int_too_large [of m] float_of_int_fits [of m]
  by (simp add: num_add_def)

lemma num_add_float_int:
  "num_add (Inr x) (Inl n) =
     (if 2 ^ 1024 - 2 ^ 970 \<le> \<bar>n\<bar> then Inl OverflowError
      else num_add (Inr x) (Inr (round_double (of_int n))))"
  using float_of_int_too_large [of n] float_of_int_fits [of n]
  by (simp add: num_add_def)

lemma num_add_cases: "(\<exists>v. num_add p q = Inr v) \<or> num_add p q = Inl OverflowError"
  by (cases p; cases q)
    (simp_all add: num_add_ints num_add_floats num_add_int_float num_add_float_int)

lemma num_add_commute:
  "num_add p q = num_add q p
   \<or> (\<exists>v u. num_add p q = Inr v \<and> num_add q p = Inr u \<and> \<not> py_eq v v \<and> \<not> py_eq u u)"
proof -
  have ff: "num_add (Inr x) (Inr y) = num_add (Inr y) (Inr x)
     \<or> (\<exists>v u. num_add (Inr x) (Inr y) = Inr v \<and> num_add (Inr y) (Inr x) = Inr u
           \<and> \<not> py_eq v v \<and> \<not> py_eq u u)" for x y
    using float_add_commute [of x y]
    by (auto simp: num_add_floats num_eq_def)
  show ?thesis
  proof (cases p)
    case (Inl m)
    show ?thesis
    proof (cases q)
      case (Inl n)
      with \<open>p = Inl m\<close> show ?thesis by (simp add: num_add_ints add.commute)
    next
      case (Inr y)
      with \<open>p = Inl m\<close> ff [of "round_double (of_int m)" y] show ?thesis
        by (simp add: num_add_int_float num_add_float_int)
    qed
  next
    case (Inr x)
    show ?thesis
    proof (cases q)
      case (Inl n)
      with \<open>p = Inr x\<close> ff [of x "round_double (of_int n)"] show ?thesis
        by (simp add: num_add_int_float num_add_float_int)
    next
      case (Inr y)
      with \<open>p = Inr x\<close> ff [of x y] show ?thesis by simp
    qed
  qed
qed

lemma py_add_numbers:
  "numeric a = Some p \<Longrightarrow> numeric b = Some q \<Longrightarrow> py_add a b w = Some (num_add p q, w)"
  by (cases a; cases b) (simp_all add: py_eval_def)


lemma py_add_object_none:
  "m (view b) w = None \<Longrightarrow> py_add (PyObject i c m r) b w = None"
  by (simp add: call_method_def)

lemma py_add_object_returned:
  "m (view b) w = Some (Returned v, w') \<Longrightarrow> py_add (PyObject i c m r) b w = Some (Inr v, w')"
  by (simp add: call_method_def)

lemma py_add_object_raised:
  "m (view b) w = Some (Raised e, w') \<Longrightarrow> py_add (PyObject i c m r) b w = Some (Inl e, w')"
  by (simp add: call_method_def)

lemma int_str_5: "int_str 5 = ''5''"
  by (simp add: int_str_def nat_str.simps)

lemma int_truediv_10_2: "int_truediv 10 2 = Inr (Finite 5)"
  using int_truediv_exact [of 2 10] by simp

lemma py_sum_given: "py_sum [1, 2, 3] = 6"
  by (simp add: py_sum_def)

section \<open>Running the functions\<close>

lemma py_assert_run:
  "py_assert c w = Some (if c then Inr () else Inl AssertionError, w)"
  by (simp add: py_assert_def py_return_def py_raise_def)

lemma assertEqual_run:
  "assertEqual first second w =
     Some (if py_eq first second then Inr () else Inl AssertionError, w)"
  by (simp add: assertEqual_def py_return_def py_raise_def)

lemma add_numbers:
  "numeric a = Some p \<Longrightarrow> numeric b = Some q \<Longrightarrow> add a b w = Some (num_add p q, w)"
  by (simp add: add_def py_add_numbers)

lemma add_ints: "add (PyInt a) (PyInt b) w = Some (Inr (PyInt (a + b)), w)"
  by (simp add: add_numbers num_add_ints)

lemma add_floats: "add (PyFloat x) (PyFloat y) w = Some (Inr (PyFloat (float_add x y)), w)"
  by (simp add: add_numbers num_add_floats)

lemma main_run:
  "main repr w =
     Some (Inr (),
       w\<lparr>stdout := stdout w @ ''Hello from Python!'' @ [CHR 0x0A] @ ''2 + 3 = 5'' @ [CHR 0x0A]\<rparr>)"
  by (simp add: main_def py_bind_def print_def add_ints int_str_5)

lemma test_addition_run: "test_addition w = Some (Inr (), w)"
  by (simp add: test_addition_def py_bind_def add_ints py_assert_run num_eq_def)

lemma test_subtraction_run: "test_subtraction w = Some (Inr (), w)"
  by (simp add: test_subtraction_def py_assert_run)

lemma test_multiplication_run: "test_multiplication w = Some (Inr (), w)"
  by (simp add: test_multiplication_def py_assert_run)

lemma test_division_run: "test_division w = Some (Inr (), w)"
  by (simp add: test_division_def py_bind_def py_eval_def int_truediv_10_2 py_assert_run
      num_eq_def)

lemma test_add_negative_run: "test_add_negative w = Some (Inr (), w)"
  by (simp add: test_add_negative_def py_bind_def add_ints py_assert_run num_eq_def)

lemma test_with_pytest_style_run: "test_with_pytest_style w = Some (Inr (), w)"
  by (simp add: test_with_pytest_style_def py_assert_run py_sum_def)

lemma test_positive_numbers_run: "test_positive_numbers w = Some (Inr (), w)"
  by (simp add: test_positive_numbers_def py_bind_def add_ints assertEqual_run num_eq_def)

lemma test_negative_numbers_run: "test_negative_numbers w = Some (Inr (), w)"
  by (simp add: test_negative_numbers_def py_bind_def add_ints assertEqual_run num_eq_def)

lemmas tests_run =
  test_addition_run test_subtraction_run test_multiplication_run test_division_run
  test_add_negative_run test_with_pytest_style_run test_positive_numbers_run
  test_negative_numbers_run

text \<open>The tests of the file are the bodies above for the functions of the file.\<close>

lemma tests_of_the_file:
  "test_addition = test_addition_with add"
  "test_subtraction = test_subtraction_with (-)"
  "test_with_pytest_style = test_with_pytest_style_with py_sum"
  "test_multiplication = test_multiplication_with (*)"
  "test_division = test_division_with int_truediv"
  "test_add_negative = test_add_negative_with add"
  "test_positive_numbers = test_positive_numbers_with add"
  "test_negative_numbers = test_negative_numbers_with add"
  by (simp_all add: test_addition_def test_addition_with_def test_subtraction_def
      test_subtraction_with_def test_with_pytest_style_def test_with_pytest_style_with_def
      test_multiplication_def test_multiplication_with_def test_division_def
      test_division_with_def test_add_negative_def test_add_negative_with_def
      test_positive_numbers_def test_positive_numbers_with_def test_negative_numbers_def
      test_negative_numbers_with_def)

lemma assert_after_call:
  "py_bind m (\<lambda>r. py_assert (c r)) w =
     (case m w of
        None \<Rightarrow> None
      | Some (Inl e, w') \<Rightarrow> Some (Inl e, w')
      | Some (Inr r, w') \<Rightarrow> Some (if c r then Inr () else Inl AssertionError, w'))"
  by (simp add: py_bind_def py_assert_run split: option.splits prod.splits sum.splits)

lemma assertEqual_after_call:
  "py_bind m (\<lambda>r. assertEqual r x) w =
     (case m w of
        None \<Rightarrow> None
      | Some (Inl e, w') \<Rightarrow> Some (Inl e, w')
      | Some (Inr r, w') \<Rightarrow> Some (if py_eq r x then Inr () else Inl AssertionError, w'))"
  by (simp add: py_bind_def assertEqual_run split: option.splits prod.splits sum.splits)

section \<open>The claims\<close>

subsection \<open>C1: what \<^verbatim>\<open>add\<close> returns\<close>




subsection \<open>C2: the entry point\<close>

text \<open>
  C2: running \<^verbatim>\<open>main()\<close> prints exactly two lines, \<^verbatim>\<open>Hello from Python!\<close> and then
  \<^verbatim>\<open>2 + 3 = 5\<close>, and returns; so does running the file as a script.
\<close>

theorem main_prints_two_lines:
  "main repr w =
     Some (Inr (),
       w\<lparr>stdout := stdout w @ ''Hello from Python!'' @ [CHR 0x0A] @ ''2 + 3 = 5'' @ [CHR 0x0A]\<rparr>)
   \<and> module_entry repr ''__main__'' w = main repr w"
  by (simp add: main_run module_entry_def)

subsection \<open>C3: the five sums\<close>

text \<open>
  C3: \<^verbatim>\<open>add(2, 3) == 5\<close>, \<^verbatim>\<open>add(2, 2) == 4\<close>, \<^verbatim>\<open>add(-1, 1) == 0\<close>, \<^verbatim>\<open>add(3, 4) == 7\<close> and
  \<^verbatim>\<open>add(-3, -4) == -7\<close> all hold, and the four tests that assert a sum return without
  raising.
\<close>

theorem add_equalities:
  "(\<exists>r. add (PyInt 2) (PyInt 3) w = Some (Inr r, w) \<and> py_eq r (PyInt 5))
   \<and> (\<exists>r. add (PyInt 2) (PyInt 2) w = Some (Inr r, w) \<and> py_eq r (PyInt 4))
   \<and> (\<exists>r. add (PyInt (- 1)) (PyInt 1) w = Some (Inr r, w) \<and> py_eq r (PyInt 0))
   \<and> (\<exists>r. add (PyInt 3) (PyInt 4) w = Some (Inr r, w) \<and> py_eq r (PyInt 7))
   \<and> (\<exists>r. add (PyInt (- 3)) (PyInt (- 4)) w = Some (Inr r, w) \<and> py_eq r (PyInt (- 7)))
   \<and> test_addition w = Some (Inr (), w)
   \<and> test_add_negative w = Some (Inr (), w)
   \<and> test_positive_numbers w = Some (Inr (), w)
   \<and> test_negative_numbers w = Some (Inr (), w)"
  by (simp add: add_ints num_eq_def tests_run)

subsection \<open>C4: every test passes\<close>

text \<open>
  C4: every test function and test method of the file returns without raising (and
  changes nothing): each asserted equality is true.
\<close>

theorem all_tests_pass:
  "test_addition w = Some (Inr (), w)
   \<and> test_subtraction w = Some (Inr (), w)
   \<and> test_multiplication w = Some (Inr (), w)
   \<and> test_division w = Some (Inr (), w)
   \<and> test_add_negative w = Some (Inr (), w)
   \<and> test_with_pytest_style w = Some (Inr (), w)
   \<and> test_positive_numbers w = Some (Inr (), w)
   \<and> test_negative_numbers w = Some (Inr (), w)"
  by (simp add: tests_run)

subsection \<open>C5: how a test fails\<close>

text \<open>
  C5: a test raises if and only if its asserted equality is false; what it then raises
  is the \<^verbatim>\<open>AssertionError\<close> of its \<^verbatim>\<open>assert\<close> or \<^verbatim>\<open>assertEqual\<close>, which goes to the caller as
  it is; no test recovers, retries or suppresses, and nothing else fails.

  The tests of the file all pass, so this is a statement about what each test does with
  whatever the function it tests does. For any function in the place of the one under
  test: when the call returns a value, the test returns if the value is equal to the
  expected one and raises \<^verbatim>\<open>AssertionError\<close> if it is not, in the state the call left;
  when the call raises, the test raises the same exception, so it suppresses nothing;
  when the call does not return, neither does the test, so it does not retry. The tests
  of the file are these, for the functions of the file; and there the calls return a
  value, so that \<^verbatim>\<open>AssertionError\<close> is the only exception left to a test.
\<close>

theorem tests_fail_by_assertion_only:
  "test_addition_with f w =
     (case f (PyInt 2) (PyInt 2) w of
        None \<Rightarrow> None
      | Some (Inl e, w') \<Rightarrow> Some (Inl e, w')
      | Some (Inr r, w') \<Rightarrow>
          Some (if py_eq r (PyInt 4) then Inr () else Inl AssertionError, w'))
   \<and> test_add_negative_with f w =
     (case f (PyInt (- 1)) (PyInt 1) w of
        None \<Rightarrow> None
      | Some (Inl e, w') \<Rightarrow> Some (Inl e, w')
      | Some (Inr r, w') \<Rightarrow>
          Some (if py_eq r (PyInt 0) then Inr () else Inl AssertionError, w'))
   \<and> test_positive_numbers_with f w =
     (case f (PyInt 3) (PyInt 4) w of
        None \<Rightarrow> None
      | Some (Inl e, w') \<Rightarrow> Some (Inl e, w')
      | Some (Inr r, w') \<Rightarrow>
          Some (if py_eq r (PyInt 7) then Inr () else Inl AssertionError, w'))
   \<and> test_negative_numbers_with f w =
     (case f (PyInt (- 3)) (PyInt (- 4)) w of
        None \<Rightarrow> None
      | Some (Inl e, w') \<Rightarrow> Some (Inl e, w')
      | Some (Inr r, w') \<Rightarrow>
          Some (if py_eq r (PyInt (- 7)) then Inr () else Inl AssertionError, w'))
   \<and> test_division_with d w =
     (case d 10 2 of
        Inl e \<Rightarrow> Some (Inl e, w)
      | Inr x \<Rightarrow>
          Some (if py_eq (PyFloat x) (PyInt 5) then Inr () else Inl AssertionError, w))
   \<and> test_subtraction_with g w =
       Some (if g 5 3 = 2 then Inr () else Inl AssertionError, w)
   \<and> test_multiplication_with g w =
       Some (if g 3 4 = 12 then Inr () else Inl AssertionError, w)
   \<and> test_with_pytest_style_with h w =
       Some (if h [1, 2, 3] = 6 then Inr () else Inl AssertionError, w)
   \<and> test_addition = test_addition_with add
   \<and> test_add_negative = test_add_negative_with add
   \<and> test_positive_numbers = test_positive_numbers_with add
   \<and> test_negative_numbers = test_negative_numbers_with add
   \<and> test_division = test_division_with int_truediv
   \<and> test_subtraction = test_subtraction_with (-)
   \<and> test_multiplication = test_multiplication_with (*)
   \<and> test_with_pytest_style = test_with_pytest_style_with py_sum
   \<and> (\<exists>r. add (PyInt 2) (PyInt 2) w = Some (Inr r, w))
   \<and> (\<exists>r. add (PyInt (- 1)) (PyInt 1) w = Some (Inr r, w))
   \<and> (\<exists>r. add (PyInt 3) (PyInt 4) w = Some (Inr r, w))
   \<and> (\<exists>r. add (PyInt (- 3)) (PyInt (- 4)) w = Some (Inr r, w))
   \<and> (\<exists>x. int_truediv 10 2 = Inr x)"
proof -
  have a: "test_addition_with f w =
     (case f (PyInt 2) (PyInt 2) w of
        None \<Rightarrow> None
      | Some (Inl e, w') \<Rightarrow> Some (Inl e, w')
      | Some (Inr r, w') \<Rightarrow>
          Some (if py_eq r (PyInt 4) then Inr () else Inl AssertionError, w'))"
    unfolding test_addition_with_def by (rule assert_after_call)
  have n: "test_add_negative_with f w =
     (case f (PyInt (- 1)) (PyInt 1) w of
        None \<Rightarrow> None
      | Some (Inl e, w') \<Rightarrow> Some (Inl e, w')
      | Some (Inr r, w') \<Rightarrow>
          Some (if py_eq r (PyInt 0) then Inr () else Inl AssertionError, w'))"
    unfolding test_add_negative_with_def by (rule assert_after_call)
  have p: "test_positive_numbers_with f w =
     (case f (PyInt 3) (PyInt 4) w of
        None \<Rightarrow> None
      | Some (Inl e, w') \<Rightarrow> Some (Inl e, w')
      | Some (Inr r, w') \<Rightarrow>
          Some (if py_eq r (PyInt 7) then Inr () else Inl AssertionError, w'))"
    unfolding test_positive_numbers_with_def by (rule assertEqual_after_call)
  have m: "test_negative_numbers_with f w =
     (case f (PyInt (- 3)) (PyInt (- 4)) w of
        None \<Rightarrow> None
      | Some (Inl e, w') \<Rightarrow> Some (Inl e, w')
      | Some (Inr r, w') \<Rightarrow>
          Some (if py_eq r (PyInt (- 7)) then Inr () else Inl AssertionError, w'))"
    unfolding test_negative_numbers_with_def by (rule assertEqual_after_call)
  have d: "test_division_with d w =
     (case d 10 2 of
        Inl e \<Rightarrow> Some (Inl e, w)
      | Inr x \<Rightarrow>
          Some (if py_eq (PyFloat x) (PyInt 5) then Inr () else Inl AssertionError, w))"
    by (simp add: test_division_with_def assert_after_call py_eval_def split: sum.splits)
  have s: "test_subtraction_with g w =
       Some (if g 5 3 = 2 then Inr () else Inl AssertionError, w)"
    "test_multiplication_with g w =
       Some (if g 3 4 = 12 then Inr () else Inl AssertionError, w)"
    "test_with_pytest_style_with h w =
       Some (if h [1, 2, 3] = 6 then Inr () else Inl AssertionError, w)"
    by (simp_all add: test_subtraction_with_def test_multiplication_with_def
        test_with_pytest_style_with_def py_assert_run)
  have r: "\<exists>r. add (PyInt 2) (PyInt 2) w = Some (Inr r, w)"
    "\<exists>r. add (PyInt (- 1)) (PyInt 1) w = Some (Inr r, w)"
    "\<exists>r. add (PyInt 3) (PyInt 4) w = Some (Inr r, w)"
    "\<exists>r. add (PyInt (- 3)) (PyInt (- 4)) w = Some (Inr r, w)"
    "\<exists>x. int_truediv 10 2 = Inr x"
    by (simp_all add: add_ints int_truediv_10_2)
  show ?thesis
    by (intro conjI) (fact a n p m d s tests_of_the_file r)+
qed

theorem tests_fail_by_assertion_only_witness:
  "test_addition_with (\<lambda>a b. py_return (PyInt 5)) start = Some (Inl AssertionError, start)
   \<and> test_addition_with (\<lambda>a b. py_raise TypeError) start = Some (Inl TypeError, start)
   \<and> test_addition_with (\<lambda>a b w. None) start = None
   \<and> test_positive_numbers_with (\<lambda>a b. py_return PyNone) start
       = Some (Inl AssertionError, start)
   \<and> test_division_with (\<lambda>a b. Inl ZeroDivisionError) start
       = Some (Inl ZeroDivisionError, start)
   \<and> test_subtraction_with (+) start = Some (Inl AssertionError, start)
   \<and> test_addition_with add start = Some (Inr (), start)"
proof -
  note c2 = conjunct2
  have a: "test_addition_with (\<lambda>a b. py_return (PyInt 5)) start
      = Some (Inl AssertionError, start)"
    by (subst tests_fail_by_assertion_only [THEN conjunct1])
      (simp add: py_return_def num_eq_def)
  have b: "test_addition_with (\<lambda>a b. py_raise TypeError) start = Some (Inl TypeError, start)"
    by (subst tests_fail_by_assertion_only [THEN conjunct1]) (simp add: py_raise_def)
  have c: "test_addition_with (\<lambda>a b w. None) start = None"
    by (subst tests_fail_by_assertion_only [THEN conjunct1]) simp
  have d: "test_positive_numbers_with (\<lambda>a b. py_return PyNone) start
       = Some (Inl AssertionError, start)"
    by (subst tests_fail_by_assertion_only [THEN c2, THEN c2, THEN conjunct1])
      (simp add: py_return_def)
  have e: "test_division_with (\<lambda>a b. Inl ZeroDivisionError) start
       = Some (Inl ZeroDivisionError, start)"
    by (subst tests_fail_by_assertion_only [THEN c2, THEN c2, THEN c2, THEN c2,
        THEN conjunct1]) simp
  have f: "test_subtraction_with (+) start = Some (Inl AssertionError, start)"
    by (subst tests_fail_by_assertion_only [THEN c2, THEN c2, THEN c2, THEN c2, THEN c2,
        THEN conjunct1]) simp
  have g: "test_addition_with add start = Some (Inr (), start)"
    by (subst tests_fail_by_assertion_only [THEN conjunct1]) (simp add: add_ints num_eq_def)
  show ?thesis by (intro conjI) (fact a b c d e f g)+
qed

subsection \<open>C6: the division\<close>

text \<open>
  C6: \<^verbatim>\<open>10 / 2\<close> is the float 5.0, which is the exact quotient (no remainder, nothing
  rounded away) and is equal to the int 5, so \<^verbatim>\<open>test_division\<close> passes.
\<close>

theorem division_is_exact:
  "int_truediv 10 2 = Inr (Finite 5)
   \<and> (10 :: int) mod 2 = 0
   \<and> float_value (Finite 5) = of_int 10 / of_int 2
   \<and> py_eq (PyFloat (Finite 5)) (PyInt 5)
   \<and> test_division w = Some (Inr (), w)"
  by (simp add: int_truediv_10_2 num_eq_def test_division_run)

subsection \<open>C7: the sum of the list\<close>

text \<open>
  C7: the sum of \<^verbatim>\<open>[1, 2, 3]\<close> is 6, so the assertion of \<^verbatim>\<open>test_with_pytest_style\<close> holds.
\<close>

theorem sum_of_given:
  "py_sum [1, 2, 3] = 6 \<and> test_with_pytest_style w = Some (Inr (), w)"
  by (simp add: py_sum_given test_with_pytest_style_run)

subsection \<open>C8: commutativity\<close>

text \<open>
  C8 says that \<^verbatim>\<open>add(a, b) == add(b, a)\<close> for every pair of numeric inputs. As stated this
  fails: \<^verbatim>\<open>add(inf, -inf)\<close> and \<^verbatim>\<open>add(-inf, inf)\<close> are both NaN, and NaN is not equal to
  itself.
\<close>

theorem add_commuted_nan_unequal:
  "add (PyFloat PosInf) (PyFloat NegInf) start = Some (Inr (PyFloat (NaN True (2 ^ 51))), start)
   \<and> add (PyFloat NegInf) (PyFloat PosInf) start
       = Some (Inr (PyFloat (NaN True (2 ^ 51))), start)
   \<and> \<not> py_eq (PyFloat (NaN True (2 ^ 51))) (PyFloat (NaN True (2 ^ 51)))"
  by (simp add: add_floats num_eq_def)

text \<open>
  C8, amended: for every pair of numbers (\<^verbatim>\<open>bool\<close>, \<^verbatim>\<open>int\<close>, \<^verbatim>\<open>float\<close>), \<^verbatim>\<open>add(a, b)\<close> and
  \<^verbatim>\<open>add(b, a)\<close> either both raise \<^verbatim>\<open>OverflowError\<close> or both return. What they return is
  one and the same value, and \<^verbatim>\<open>add(a, b) == add(b, a)\<close> is true, unless it is NaN: then
  both are NaN, which NaN each is depends on the order (the last part: \<^verbatim>\<open>nan + -nan\<close> has
  the sign of the first), and \<^verbatim>\<open>==\<close> is false. For two ints \<^verbatim>\<open>==\<close> is always true.
\<close>

theorem add_commutes:
  "(numeric a = Some p \<and> numeric b = Some q \<longrightarrow>
      (add a b w = Some (Inl OverflowError, w) \<and> add b a w = Some (Inl OverflowError, w))
      \<or> (\<exists>v u. add a b w = Some (Inr v, w) \<and> add b a w = Some (Inr u, w)
            \<and> ((v = u \<and> py_eq v u) \<or> (\<not> py_eq v v \<and> \<not> py_eq u u \<and> \<not> py_eq v u))))
   \<and> (\<exists>r s. add (PyInt m) (PyInt n) w = Some (Inr r, w)
          \<and> add (PyInt n) (PyInt m) w = Some (Inr s, w) \<and> py_eq r s)
   \<and> add (PyFloat (NaN False (2 ^ 51))) (PyFloat (NaN True (2 ^ 51))) w
       = Some (Inr (PyFloat (NaN False (2 ^ 51))), w)
   \<and> add (PyFloat (NaN True (2 ^ 51))) (PyFloat (NaN False (2 ^ 51))) w
       = Some (Inr (PyFloat (NaN True (2 ^ 51))), w)"
proof -
  have nan_unequal: "\<not> py_eq v u" if "\<not> py_eq v v" "numeric v = Some (Inr x)" for v u x
    using that by (cases v; cases u; cases x) (auto simp: num_eq_def split: sum.splits)
  have main: "(add a b w = Some (Inl OverflowError, w) \<and> add b a w = Some (Inl OverflowError, w))
      \<or> (\<exists>v u. add a b w = Some (Inr v, w) \<and> add b a w = Some (Inr u, w)
            \<and> ((v = u \<and> py_eq v u) \<or> (\<not> py_eq v v \<and> \<not> py_eq u u \<and> \<not> py_eq v u)))"
    if n: "numeric a = Some p" "numeric b = Some q"
  proof -
    have ab: "add a b w = Some (num_add p q, w)" and ba: "add b a w = Some (num_add q p, w)"
      using n by (simp_all add: add_numbers)
    from num_add_commute [of p q] show ?thesis
    proof
      assume same: "num_add p q = num_add q p"
      from num_add_cases [of p q] show ?thesis
      proof
        assume "\<exists>v. num_add p q = Inr v"
        then obtain v where v: "num_add p q = Inr v" ..
        have isnum: "\<exists>x. numeric v = Some x"
          using v by (cases p; cases q)
            (auto simp: num_add_def split: sum.splits)
        show ?thesis
        proof (cases "py_eq v v")
          case True
          with v same ab ba show ?thesis by auto
        next
          case False
          from isnum obtain x where x: "numeric v = Some x" ..
          have "\<exists>y. x = Inr y"
            using False x by (cases v; cases x) (auto simp: num_eq_def)
          then obtain y where "numeric v = Some (Inr y)" using x by auto
          with False have "\<not> py_eq v v" "\<not> py_eq v v" "\<not> py_eq v v"
            by simp_all
          with v same ab ba show ?thesis by auto
        qed
      next
        assume "num_add p q = Inl OverflowError"
        with same ab ba show ?thesis by simp
      qed
    next
      assume "\<exists>v u. num_add p q = Inr v \<and> num_add q p = Inr u \<and> \<not> py_eq v v \<and> \<not> py_eq u u"
      then obtain v u where vu: "num_add p q = Inr v" "num_add q p = Inr u"
        "\<not> py_eq v v" "\<not> py_eq u u" by blast
      have "\<exists>x. numeric v = Some (Inr x)"
        using vu(1,3) by (cases p; cases q) (auto simp: num_add_def num_eq_def split: sum.splits)
      then obtain x where "numeric v = Some (Inr x)" ..
      with vu(3) have "\<not> py_eq v u" by (rule nan_unequal)
      with vu ab ba show ?thesis by auto
    qed
  qed
  have ints: "\<exists>r s. add (PyInt m) (PyInt n) w = Some (Inr r, w)
          \<and> add (PyInt n) (PyInt m) w = Some (Inr s, w) \<and> py_eq r s"
    by (simp add: add_ints num_eq_def add.commute)
  have nans: "add (PyFloat (NaN False (2 ^ 51))) (PyFloat (NaN True (2 ^ 51))) w
       = Some (Inr (PyFloat (NaN False (2 ^ 51))), w)"
    "add (PyFloat (NaN True (2 ^ 51))) (PyFloat (NaN False (2 ^ 51))) w
       = Some (Inr (PyFloat (NaN True (2 ^ 51))), w)"
    by (simp_all only: add_floats float_add_nan_order)
  from main have "numeric a = Some p \<and> numeric b = Some q \<longrightarrow>
      (add a b w = Some (Inl OverflowError, w) \<and> add b a w = Some (Inl OverflowError, w))
      \<or> (\<exists>v u. add a b w = Some (Inr v, w) \<and> add b a w = Some (Inr u, w)
            \<and> ((v = u \<and> py_eq v u) \<or> (\<not> py_eq v v \<and> \<not> py_eq u u \<and> \<not> py_eq v u)))"
    by blast
  then show ?thesis using ints nans by (intro conjI)
qed

theorem add_commutes_witness:
  "numeric (PyFloat (Finite (1 / 2))) = Some (Inr (Finite (1 / 2)))
   \<and> numeric (PyInt 1) = Some (Inl 1)
   \<and> add (PyFloat (Finite (1 / 2))) (PyInt 1) start
       = Some (Inr (PyFloat (Finite (3 / 2))), start)
   \<and> add (PyInt 1) (PyFloat (Finite (1 / 2))) start
       = Some (Inr (PyFloat (Finite (3 / 2))), start)
   \<and> py_eq (PyFloat (Finite (3 / 2))) (PyFloat (Finite (3 / 2)))"
proof -
  have n: "numeric (PyFloat (Finite (1 / 2))) = Some (Inr (Finite (1 / 2)))"
    "numeric (PyInt 1) = Some (Inl 1)" by simp_all
  have l: "add (PyFloat (Finite (1 / 2))) (PyInt 1) start
       = Some (Inr (PyFloat (Finite (3 / 2))), start)"
    using float_of_int_exact [of 1] round_double_3_2
    by (simp add: add_numbers num_add_def)
  from add_commutes [where a = "PyFloat (Finite (1 / 2))" and b = "PyInt 1" and w = start
      and p = "Inr (Finite (1 / 2))" and q = "Inl 1", THEN conjunct1] n l
  have r: "add (PyInt 1) (PyFloat (Finite (1 / 2))) start
       = Some (Inr (PyFloat (Finite (3 / 2))), start)"
    by (auto simp: num_eq_def)
  have e: "py_eq (PyFloat (Finite (3 / 2))) (PyFloat (Finite (3 / 2)))"
    by (simp add: num_eq_def)
  show ?thesis by (intro conjI) (fact n l r e)+
qed

subsection \<open>C9: termination\<close>




subsection \<open>C10: determinism\<close>




end
